theory Spec2Isabelle
  imports Complex_Main "HOL-Library.AList"
begin

section \<open>The pantry service: data\<close>

text \<open>
  The model follows \<^verbatim>\<open>pantry-service/src/index.ts\<close> and the tables of
  \<^verbatim>\<open>database/init.sql\<close>. Quantities are the INTEGER columns of the tables and the
  integer-valued numbers the service computes with, modelled as unbounded \<open>int\<close>.
  Prices (JavaScript doubles, DECIMAL(10,2) columns) are modelled as exact rationals,
  next to the two values a price computation can yield that are not prices.
  Row ids and timestamps play no part in the reservation protocol and are left out,
  and so are the notifications to the SSE clients, which catch their own errors.
  One attempt runs at a time: the row locks of the database, which serialise the
  attempts that meet on a row, are not modelled.
\<close>

datatype order_status = pending | waiting_ingredients | preparing | completed | cancelled

text \<open>
  What \<^verbatim>\<open>getIngredientPrice\<close> and the product \<^verbatim>\<open>quantitySold * pricePerUnit\<close> can
  evaluate to: a number; a member inherited from \<^verbatim>\<open>Object.prototype\<close> (a function or
  an object, truthy and not a number); and the product of a quantity with such a
  member, which is NaN.
\<close>

datatype jsvalue = Num rat | Inherited | NaN

text \<open>The values handed to the INSERT into \<^verbatim>\<open>market_purchases\<close>.\<close>

record MarketPurchase =
  ingredient :: string
  quantity_requested :: int
  quantity_sold :: int
  price_per_unit :: jsvalue
  total_cost :: jsvalue

record IngredientRequest =
  requestId :: string
  orderId :: int
  recipeSnapshot :: "(string \<times> int) list"

text \<open>
  The two tables the reservation transaction writes. A value of this type is either the
  committed content of the tables or the content seen by the transaction in progress
  (the \<^verbatim>\<open>client\<close> of the source): COMMIT makes the second the first, ROLLBACK drops it.
\<close>

record ledger =
  pantry_stock :: "string \<rightharpoonup> int"
  market_purchases :: "MarketPurchase list"

section \<open>The price table\<close>

definition lowerChar :: "char \<Rightarrow> char" where
  "lowerChar c =
     (case map_of (zip ''ABCDEFGHIJKLMNOPQRSTUVWXYZ'' ''abcdefghijklmnopqrstuvwxyz'') c of
        None \<Rightarrow> c
      | Some l \<Rightarrow> l)"

definition toLowerCase :: "string \<Rightarrow> string" where
  "toLowerCase s = map lowerChar s"

definition prices :: "(string \<times> rat) list" where
  "prices =
     [(''potato'', 3 / 2), (''tomato'', 2), (''cheese'', 9 / 2), (''meat'', 8),
      (''rice'', 6 / 5), (''lemon'', 4 / 5), (''onion'', 1), (''garlic'', 3),
      (''pepper'', 5 / 2), (''salt'', 1 / 2), (''oil'', 7 / 2), (''bread'', 11 / 5)]"

text \<open>
  \<^verbatim>\<open>prices\<close> is an object literal, so a key it does not hold itself is looked up in
  \<^verbatim>\<open>Object.prototype\<close>. The key is lower-cased first, and the members of
  \<^verbatim>\<open>Object.prototype\<close> whose names have no capital letter are these two.
\<close>

definition inheritedKeys :: "string list" where
  "inheritedKeys = [''constructor'', ''__proto__'']"

text \<open>
  \<^verbatim>\<open>prices[ingredient.toLowerCase()] || 2.00\<close>: the table entry of the lower-cased name;
  for an inherited key the inherited member, which is truthy, so that the default does
  not apply; and 2.00 when the lookup finds nothing (or zero). Only ASCII letters
  change case.
\<close>

definition getIngredientPrice :: "string \<Rightarrow> jsvalue" where
  "getIngredientPrice name =
     (let key = toLowerCase name
      in case map_of prices key of
           Some p \<Rightarrow> if p = 0 then Num 2 else Num p
         | None \<Rightarrow> if key \<in> set inheritedKeys then Inherited else Num 2)"

text \<open>\<^verbatim>\<open>quantitySold * pricePerUnit\<close>\<close>

definition timesPrice :: "int \<Rightarrow> jsvalue \<Rightarrow> jsvalue" where
  "timesPrice quantitySold pricePerUnit =
     (case pricePerUnit of
        Num p \<Rightarrow> Num (of_int quantitySold * p)
      | Inherited \<Rightarrow> NaN
      | NaN \<Rightarrow> NaN)"

section \<open>The Market Gateway: buyFromMarket\<close>

text \<open>
  The market endpoint and the INSERT of the purchase are the environment of the
  purchase loop. What happens in the successive try blocks is an input of the model,
  in the order of the calls: \<open>Threw\<close> when the request raised (it failed or timed
  out); \<open>Resp q\<close> when the call answered with \<^verbatim>\<open>quantitySold = q\<close> and the try block
  ran to its end; \<open>Unrecorded q\<close> when the call answered with \<^verbatim>\<open>quantitySold = q\<close> and
  the INSERT raised. The catch block only logs. The database refuses a price that is
  not a number, so for a name that meets an inherited key the positive answers of the
  market are of the last kind.
\<close>

datatype market_call = Threw | Resp int | Unrecorded int

text \<open>
  The local variables of \<^verbatim>\<open>buyFromMarket\<close>, the transaction it inserts into, and the
  delays it has slept (in milliseconds, oldest first).
\<close>

record purchase_loop =
  totalPurchased :: int
  attempts :: nat
  backoffDelay :: nat
  client :: ledger
  slept :: "nat list"

text \<open>The body of the try block, and its catch, for one answer of the market.\<close>

definition tryPurchase :: "string \<Rightarrow> int \<Rightarrow> market_call \<Rightarrow> purchase_loop \<Rightarrow> purchase_loop" where
  "tryPurchase name quantity answer st =
     (case answer of
        Threw \<Rightarrow> st
      | Unrecorded quantitySold \<Rightarrow> st
      | Resp quantitySold \<Rightarrow>
          if quantitySold > 0 then
            let pricePerUnit = getIngredientPrice name;
                totalCost = timesPrice quantitySold pricePerUnit;
                row = \<lparr>ingredient = name,
                       quantity_requested = quantity - totalPurchased st,
                       quantity_sold = quantitySold,
                       price_per_unit = pricePerUnit,
                       total_cost = totalCost\<rparr>
            in st\<lparr>client := (client st)\<lparr>market_purchases := market_purchases (client st) @ [row]\<rparr>,
                  totalPurchased := totalPurchased st + quantitySold,
                  backoffDelay := 1000\<rparr>
          else st)"

text \<open>
  After the try block: \<^verbatim>\<open>attempts++\<close>, and when the total is still short, sleep the
  current delay and then double it, up to 60000.
\<close>

definition waitBeforeNext :: "int \<Rightarrow> purchase_loop \<Rightarrow> purchase_loop" where
  "waitBeforeNext quantity st =
     (let st1 = st\<lparr>attempts := attempts st + 1\<rparr>
      in if totalPurchased st1 < quantity
         then st1\<lparr>slept := slept st1 @ [backoffDelay st1],
                  backoffDelay := min (backoffDelay st1 * 2) 60000\<rparr>
         else st1)"

definition iteration :: "string \<Rightarrow> int \<Rightarrow> market_call \<Rightarrow> purchase_loop \<Rightarrow> purchase_loop" where
  "iteration name quantity answer st = waitBeforeNext quantity (tryPurchase name quantity answer st)"

text \<open>
  \<^verbatim>\<open>while (totalPurchased < quantity)\<close>. The loop has no other exit: when the answers
  given run out while the total is still short, the loop has not returned, which is the
  value \<open>None\<close>. On return the answers not consumed are handed back.
\<close>

fun buyLoop ::
  "string \<Rightarrow> int \<Rightarrow> market_call list \<Rightarrow> purchase_loop \<Rightarrow> (purchase_loop \<times> market_call list) option" where
  "buyLoop name quantity [] st =
     (if totalPurchased st < quantity then None else Some (st, []))"
| "buyLoop name quantity (answer # answers) st =
     (if totalPurchased st < quantity
      then buyLoop name quantity answers (iteration name quantity answer st)
      else Some (st, answer # answers))"

definition buyFromMarket ::
  "ledger \<Rightarrow> string \<Rightarrow> int \<Rightarrow> market_call list \<Rightarrow> (purchase_loop \<times> market_call list) option" where
  "buyFromMarket c name quantity answers =
     buyLoop name quantity answers
       \<lparr>totalPurchased = 0, attempts = 0, backoffDelay = 1000, client = c, slept = []\<rparr>"

text \<open>
  What one run of the loop records, read off the try blocks it went through: the
  positive quantities sold whose INSERT succeeded, in order.
\<close>

fun sold :: "market_call \<Rightarrow> int list" where
  "sold Threw = []"
| "sold (Resp q) = (if q > 0 then [q] else [])"
| "sold (Unrecorded q) = []"

definition sales :: "market_call list \<Rightarrow> int list" where
  "sales answers = concat (map sold answers)"

text \<open>A row as \<^verbatim>\<open>buyFromMarket\<close> writes it for the ingredient \<open>name\<close>.\<close>

definition recorded :: "string \<Rightarrow> MarketPurchase \<Rightarrow> bool" where
  "recorded name r \<longleftrightarrow>
     ingredient r = name \<and> 0 < quantity_sold r \<and>
     price_per_unit r = getIngredientPrice name \<and>
     total_cost r = timesPrice (quantity_sold r) (price_per_unit r)"

section \<open>The Reservation Coordinator: handleIngredientRequest\<close>

text \<open>
  The statements the reservation transaction sends through its \<^verbatim>\<open>client\<close>. Each may
  raise (a lock that cannot be taken, a lost connection); which ones do is an input of
  the model. Three things are taken to succeed: taking the client from the pool, which
  happens before the try block; ROLLBACK; and the UPDATE of an order's status, which
  runs on a connection of its own and whose errors \<^verbatim>\<open>updateOrderStatus\<close> swallows.
\<close>

datatype stmt =
    Begin
  | SelectForUpdate string
  | UpdateStock string
  | InsertStock string
  | ConsumeStock string
  | Commit

datatype exn = DatabaseError stmt | ChannelNotAvailable

record env =
  raises :: "stmt \<Rightarrow> bool"
  market :: "market_call list"

record stock_info =
  current :: int
  required :: int

text \<open>
  The variables of the first phase: the transaction, \<^verbatim>\<open>ingredientStocks\<close> (an object
  keyed by ingredient: writing a key again replaces its value, a new key goes last),
  the flag, and the answers the market has not given yet.
\<close>

record check_phase =
  txn :: ledger
  ingredientStocks :: "(string \<times> stock_info) list"
  allIngredientsObtainable :: bool
  answers_left :: "market_call list"

definition recordIngredient :: "string \<Rightarrow> int \<Rightarrow> int \<Rightarrow> check_phase \<Rightarrow> check_phase" where
  "recordIngredient name currentStock requiredQuantity cp =
     cp\<lparr>ingredientStocks :=
          AList.update name \<lparr>current = currentStock, required = requiredQuantity\<rparr>
            (ingredientStocks cp),
        allIngredientsObtainable :=
          (if currentStock < requiredQuantity then False else allIngredientsObtainable cp)\<rparr>"

text \<open>The body of the first loop, for one entry of \<^verbatim>\<open>recipeSnapshot\<close>.\<close>

definition checkIngredient ::
  "(stmt \<Rightarrow> bool) \<Rightarrow> string \<Rightarrow> int \<Rightarrow> check_phase \<Rightarrow> (exn + check_phase) option" where
  "checkIngredient fails name requiredQuantity cp =
     (if fails (SelectForUpdate name) then Some (Inl (DatabaseError (SelectForUpdate name)))
      else
        let row = pantry_stock (txn cp) name;
            currentStock = (case row of None \<Rightarrow> 0 | Some q \<Rightarrow> q)
        in if currentStock < requiredQuantity then
             (case buyFromMarket (txn cp) name (requiredQuantity - currentStock) (answers_left cp) of
                None \<Rightarrow> None
              | Some (bought, rest) \<Rightarrow>
                  let purchasedQuantity = totalPurchased bought;
                      currentStock' = currentStock + purchasedQuantity;
                      write = (case row of None \<Rightarrow> InsertStock name | Some _ \<Rightarrow> UpdateStock name)
                  in if fails write then Some (Inl (DatabaseError write))
                     else Some (Inr (recordIngredient name currentStock' requiredQuantity
                            (cp\<lparr>txn := (client bought)
                                    \<lparr>pantry_stock := (pantry_stock (client bought))(name \<mapsto> currentStock')\<rparr>,
                                answers_left := rest\<rparr>))))
           else Some (Inr (recordIngredient name currentStock requiredQuantity cp)))"

fun checkIngredients ::
  "(stmt \<Rightarrow> bool) \<Rightarrow> (string \<times> int) list \<Rightarrow> check_phase \<Rightarrow> (exn + check_phase) option" where
  "checkIngredients fails [] cp = Some (Inr cp)"
| "checkIngredients fails ((name, requiredQuantity) # entries) cp =
     (case checkIngredient fails name requiredQuantity cp of
        None \<Rightarrow> None
      | Some (Inl x) \<Rightarrow> Some (Inl x)
      | Some (Inr cp') \<Rightarrow> checkIngredients fails entries cp')"

text \<open>
  The second loop: \<^verbatim>\<open>UPDATE pantry_stock SET quantity = quantity - $1 WHERE ingredient = $2\<close>
  for every entry of \<^verbatim>\<open>ingredientStocks\<close>. The statement changes the row when there is one.
\<close>

definition decrement :: "string \<Rightarrow> int \<Rightarrow> ledger \<Rightarrow> ledger" where
  "decrement name amount c =
     (case pantry_stock c name of
        None \<Rightarrow> c
      | Some q \<Rightarrow> c\<lparr>pantry_stock := (pantry_stock c)(name \<mapsto> q - amount)\<rparr>)"

fun consumeIngredients ::
  "(stmt \<Rightarrow> bool) \<Rightarrow> (string \<times> stock_info) list \<Rightarrow> ledger \<Rightarrow> exn + ledger" where
  "consumeIngredients fails [] c = Inr c"
| "consumeIngredients fails ((name, stockInfo) # entries) c =
     (if fails (ConsumeStock name) then Inl (DatabaseError (ConsumeStock name))
      else consumeIngredients fails entries (decrement name (required stockInfo) c))"

section \<open>The service, the Retry Scheduler\<close>

text \<open>
  The committed tables, the status column of the orders table, the retry counters,
  the callbacks handed to \<^verbatim>\<open>setTimeout\<close> and not yet run (delay in milliseconds and the
  request to handle, in the order of scheduling), whether the broker channel is there,
  and the ready notifications published.
\<close>

record pantry =
  committed :: ledger
  orders :: "int \<rightharpoonup> order_status"
  retryAttempts :: "int \<rightharpoonup> nat"
  timers :: "(nat \<times> IngredientRequest) list"
  rabbitChannel :: bool
  published :: "(string \<times> int \<times> (string \<times> int) list) list"

definition updateOrderStatus :: "int \<Rightarrow> order_status \<Rightarrow> pantry \<Rightarrow> pantry" where
  "updateOrderStatus oid status s =
     (case orders s oid of
        None \<Rightarrow> s
      | Some _ \<Rightarrow> s\<lparr>orders := (orders s)(oid \<mapsto> status)\<rparr>)"

definition MAX_RETRY_ATTEMPTS :: nat where
  "MAX_RETRY_ATTEMPTS = 5"

definition RETRY_DELAYS :: "nat list" where
  "RETRY_DELAYS = [30000, 60000, 120000, 300000, 600000]"

text \<open>\<^verbatim>\<open>this.RETRY_DELAYS[currentAttempts] || 600000\<close>\<close>

definition retryDelay :: "nat \<Rightarrow> nat" where
  "retryDelay currentAttempts =
     (if currentAttempts < length RETRY_DELAYS \<and> RETRY_DELAYS ! currentAttempts \<noteq> 0
      then RETRY_DELAYS ! currentAttempts
      else 600000)"

definition scheduleIngredientRetry :: "IngredientRequest \<Rightarrow> pantry \<Rightarrow> pantry" where
  "scheduleIngredientRetry m s =
     (let currentAttempts = (case retryAttempts s (orderId m) of None \<Rightarrow> 0 | Some n \<Rightarrow> n)
      in if currentAttempts \<ge> MAX_RETRY_ATTEMPTS then
           (updateOrderStatus (orderId m) cancelled s)
             \<lparr>retryAttempts := (retryAttempts s)(orderId m := None)\<rparr>
         else
           let nextAttempt = currentAttempts + 1;
               delay = retryDelay currentAttempts
           in s\<lparr>retryAttempts := (retryAttempts s)(orderId m \<mapsto> nextAttempt),
                timers := timers s @ [(delay, m)]\<rparr>)"

definition notifyIngredientsReady ::
  "string \<Rightarrow> int \<Rightarrow> (string \<times> int) list \<Rightarrow> pantry \<Rightarrow> exn + pantry" where
  "notifyIngredientsReady rid oid availableIngredients s =
     (if \<not> rabbitChannel s then Inl ChannelNotAvailable
      else Inr (s\<lparr>published := published s @ [(rid, oid, availableIngredients)]\<rparr>))"

text \<open>
  The state the first phase starts in: BEGIN on the committed tables, nothing recorded,
  \<^verbatim>\<open>allIngredientsObtainable = true\<close>.
\<close>

definition beginTransaction :: "env \<Rightarrow> pantry \<Rightarrow> check_phase" where
  "beginTransaction e s =
     \<lparr>txn = committed s, ingredientStocks = [], allIngredientsObtainable = True,
      answers_left = market e\<rparr>"

text \<open>
  The branch an attempt ends in: stock consumed and the kitchen notified; the
  else branch of the decision; the catch block, with what was raised.
\<close>

datatype outcome = Consumed | Insufficient | Errored exn

text \<open>The catch block: ROLLBACK, then schedule a retry.\<close>

definition caught :: "exn \<Rightarrow> IngredientRequest \<Rightarrow> pantry \<Rightarrow> outcome \<times> pantry" where
  "caught x m s = (Errored x, scheduleIngredientRetry m s)"

definition handleIngredientRequest ::
  "env \<Rightarrow> IngredientRequest \<Rightarrow> pantry \<Rightarrow> (outcome \<times> pantry) option" where
  "handleIngredientRequest e m s =
     (if raises e Begin then Some (caught (DatabaseError Begin) m s)
      else
        case checkIngredients (raises e) (recipeSnapshot m) (beginTransaction e s) of
          None \<Rightarrow> None
        | Some (Inl x) \<Rightarrow> Some (caught x m s)
        | Some (Inr cp) \<Rightarrow>
            if allIngredientsObtainable cp then
              (case consumeIngredients (raises e) (ingredientStocks cp) (txn cp) of
                 Inl x \<Rightarrow> Some (caught x m s)
               | Inr c \<Rightarrow>
                   if raises e Commit then Some (caught (DatabaseError Commit) m s)
                   else
                     let s1 = s\<lparr>committed := c\<rparr>;
                         availableIngredients =
                           map (\<lambda>(name, stockInfo). (name, required stockInfo)) (ingredientStocks cp)
                     in (case notifyIngredientsReady (requestId m) (orderId m) availableIngredients s1 of
                           Inl x \<Rightarrow> Some (caught x m s1)
                         | Inr s2 \<Rightarrow>
                             Some (Consumed, s2\<lparr>retryAttempts := (retryAttempts s2)(orderId m := None)\<rparr>)))
            else
              Some (Insufficient,
                    scheduleIngredientRetry m
                      (updateOrderStatus (orderId m) waiting_ingredients s)))"



section \<open>Predicates of the statements\<close>

text \<open>The quantity the first phase reads for an ingredient: the row's, or 0 without a row.\<close>

definition quantityOf :: "ledger \<Rightarrow> string \<Rightarrow> int" where
  "quantityOf c name = (case pantry_stock c name of None \<Rightarrow> 0 | Some q \<Rightarrow> q)"

definition stock_nonneg :: "ledger \<Rightarrow> bool" where
  "stock_nonneg c \<longleftrightarrow> (\<forall>name q. pantry_stock c name = Some q \<longrightarrow> 0 \<le> q)"

text \<open>
  What the first phase keeps true of its variables: one entry per ingredient, the
  flag still set, and every entry holding the quantity now in the transaction's row,
  which covers the required quantity.
\<close>

definition consistent :: "check_phase \<Rightarrow> bool" where
  "consistent cp \<longleftrightarrow>
     distinct (map fst (ingredientStocks cp)) \<and> allIngredientsObtainable cp \<and>
     (\<forall>name stockInfo. map_of (ingredientStocks cp) name = Some stockInfo \<longrightarrow>
        required stockInfo \<le> current stockInfo \<and> current stockInfo = quantityOf (txn cp) name)"

text \<open>An attempt that ended before COMMIT took effect, and one that ended after.\<close>

fun rolledBack :: "outcome \<Rightarrow> bool" where
  "rolledBack Consumed = False"
| "rolledBack Insufficient = True"
| "rolledBack (Errored (DatabaseError st)) = True"
| "rolledBack (Errored ChannelNotAvailable) = False"

text \<open>Everything in the state of the service but the status column of the orders.\<close>

definition besidesOrders ::
  "pantry \<Rightarrow> ledger \<times> (int \<rightharpoonup> nat) \<times> (nat \<times> IngredientRequest) list \<times> bool \<times>
     (string \<times> int \<times> (string \<times> int) list) list" where
  "besidesOrders s = (committed s, retryAttempts s, timers s, rabbitChannel s, published s)"

section \<open>Sample data\<close>

text \<open>Rows of the purchase table for rice, as the gateway writes them.\<close>

definition rice_row :: "int \<Rightarrow> int \<Rightarrow> MarketPurchase" where
  "rice_row wanted got = \<lparr>ingredient = ''rice'', quantity_requested = wanted, quantity_sold = got,
     price_per_unit = Num (6 / 5), total_cost = Num (of_int got * (6 / 5))\<rparr>"

text \<open>
  An order for two tomatoes and one cheese, a pantry holding one tomato, and two
  environments: in the first every statement succeeds, in the second the lock on the
  cheese row cannot be taken. In both the market sells one unit to the first call
  and, after an empty answer and a failed call, one unit again.
\<close>

definition order1 :: IngredientRequest where
  "order1 = \<lparr>requestId = ''r1'', orderId = 1,
             recipeSnapshot = [(''tomato'', 2), (''cheese'', 1)]\<rparr>"

definition pantry1 :: pantry where
  "pantry1 =
     \<lparr>committed = \<lparr>pantry_stock = [''tomato'' \<mapsto> 1], market_purchases = []\<rparr>,
      orders = [1 \<mapsto> pending], retryAttempts = Map.empty, timers = [],
      rabbitChannel = True, published = []\<rparr>"

definition market_open :: env where
  "market_open = \<lparr>raises = (\<lambda>st. False), market = [Resp 1, Resp 0, Threw, Resp 1]\<rparr>"

definition lock_fails :: env where
  "lock_fails =
     \<lparr>raises = (\<lambda>st. st = SelectForUpdate ''cheese''),
      market = [Resp 1, Resp 0, Threw, Resp 1]\<rparr>"

definition lock_raised :: outcome where
  "lock_raised = Errored (DatabaseError (SelectForUpdate ''cheese''))"

text \<open>An environment in which every statement succeeds and the market sells nothing.\<close>

definition market_dry :: env where
  "market_dry = \<lparr>raises = (\<lambda>st. False), market = [Resp 0, Threw, Resp 0, Resp 0]\<rparr>"

section \<open>The Market Gateway: properties\<close>

lemmas run_simps = buyFromMarket_def iteration_def waitBeforeNext_def tryPurchase_def
  timesPrice_def Let_def

lemma tryPurchase_Threw [simp]: "tryPurchase name quantity Threw st = st"
  by (simp add: tryPurchase_def)

lemma tryPurchase_empty [simp]: "q \<le> 0 \<Longrightarrow> tryPurchase name quantity (Resp q) st = st"
  by (simp add: tryPurchase_def)

lemma tryPurchase_Unrecorded [simp]: "tryPurchase name quantity (Unrecorded q) st = st"
  by (simp add: tryPurchase_def)

lemma tryPurchase_unsold: "sold answer = [] \<Longrightarrow> tryPurchase name quantity answer st = st"
  by (cases answer) (simp_all split: if_splits)

lemma tryPurchase_total:
  "totalPurchased (tryPurchase name quantity answer st) = totalPurchased st + sum_list (sold answer)"
  by (cases answer) (simp_all add: tryPurchase_def Let_def)

lemma tryPurchase_stock [simp]:
  "pantry_stock (client (tryPurchase name quantity answer st)) = pantry_stock (client st)"
  by (cases answer) (simp_all add: tryPurchase_def Let_def)

lemma tryPurchase_records:
  "\<exists>new. market_purchases (client (tryPurchase name quantity answer st)) =
           market_purchases (client st) @ new \<and>
         map quantity_sold new = sold answer \<and> (\<forall>r \<in> set new. recorded name r)"
  by (cases answer) (simp_all add: tryPurchase_def Let_def recorded_def)

lemma waitBeforeNext_same [simp]:
  "totalPurchased (waitBeforeNext quantity st) = totalPurchased st"
  "client (waitBeforeNext quantity st) = client st"
  by (simp_all add: waitBeforeNext_def Let_def)

lemma iteration_total:
  "totalPurchased (iteration name quantity answer st) = totalPurchased st + sum_list (sold answer)"
  by (simp add: iteration_def tryPurchase_total)

lemma iteration_stock [simp]:
  "pantry_stock (client (iteration name quantity answer st)) = pantry_stock (client st)"
  by (simp add: iteration_def)

lemma iteration_records:
  "\<exists>new. market_purchases (client (iteration name quantity answer st)) =
           market_purchases (client st) @ new \<and>
         map quantity_sold new = sold answer \<and> (\<forall>r \<in> set new. recorded name r)"
  using tryPurchase_records [of name quantity answer st] by (simp add: iteration_def)

lemma sold_nonneg: "0 \<le> sum_list (sold a)"
  by (cases a) simp_all

lemma sales_nonneg: "0 \<le> sum_list (sales answers)"
  by (induction answers) (simp_all add: sales_def sold_nonneg)

text \<open>
  What a run that returns has done: it consumed a prefix of the answers, recorded
  exactly the sales of that prefix after the rows already there, added them up, and
  touched no stock row.
\<close>

lemma buyLoop_returns:
  "buyLoop name quantity answers st = Some (st', rest) \<Longrightarrow>
     quantity \<le> totalPurchased st' \<and> pantry_stock (client st') = pantry_stock (client st) \<and>
     (\<exists>used new. answers = used @ rest \<and>
        market_purchases (client st') = market_purchases (client st) @ new \<and>
        map quantity_sold new = sales used \<and>
        totalPurchased st' = totalPurchased st + sum_list (sales used) \<and>
        (\<forall>r \<in> set new. recorded name r))"
proof (induction answers arbitrary: st)
  case Nil
  then show ?case by (simp add: sales_def split: if_splits)
next
  case (Cons a answers)
  show ?case
  proof (cases "totalPurchased st < quantity")
    case False
    with Cons.prems show ?thesis by (auto simp: sales_def)
  next
    case True
    let ?st1 = "iteration name quantity a st"
    from True Cons.prems have run: "buyLoop name quantity answers ?st1 = Some (st', rest)"
      by simp
    from Cons.IH [OF run] obtain used new where
      ge: "quantity \<le> totalPurchased st'" and
      stock: "pantry_stock (client st') = pantry_stock (client ?st1)" and
      used: "answers = used @ rest" and
      recs: "market_purchases (client st') = market_purchases (client ?st1) @ new" and
      sold: "map quantity_sold new = sales used" and
      total: "totalPurchased st' = totalPurchased ?st1 + sum_list (sales used)" and
      ok: "\<forall>r \<in> set new. recorded name r"
      by blast
    from iteration_records [of name quantity a st] obtain new1 where
      recs1: "market_purchases (client ?st1) = market_purchases (client st) @ new1" and
      sold1: "map quantity_sold new1 = sold a" and
      ok1: "\<forall>r \<in> set new1. recorded name r"
      by blast
    have "a # answers = (a # used) @ rest" using used by simp
    moreover have "market_purchases (client st') = market_purchases (client st) @ (new1 @ new)"
      using recs recs1 by simp
    moreover have "map quantity_sold (new1 @ new) = sales (a # used)"
      using sold sold1 by (simp add: sales_def)
    moreover have "totalPurchased st' = totalPurchased st + sum_list (sales (a # used))"
      using total by (simp add: iteration_total sales_def)
    moreover have "\<forall>r \<in> set (new1 @ new). recorded name r"
      using ok ok1 by auto
    ultimately have "\<exists>used new. a # answers = used @ rest \<and>
        market_purchases (client st') = market_purchases (client st) @ new \<and>
        map quantity_sold new = sales used \<and>
        totalPurchased st' = totalPurchased st + sum_list (sales used) \<and>
        (\<forall>r \<in> set new. recorded name r)"
      by blast
    then show ?thesis using ge stock by simp
  qed
qed

lemma buyLoop_supplied:
  "quantity \<le> totalPurchased st + sum_list (sales answers) \<Longrightarrow>
     buyLoop name quantity answers st \<noteq> None"
proof (induction answers arbitrary: st)
  case Nil
  then show ?case by (simp add: sales_def)
next
  case (Cons a answers)
  have "quantity \<le> totalPurchased (iteration name quantity a st) + sum_list (sales answers)"
    using Cons.prems by (simp add: iteration_total sales_def)
  from Cons.IH [OF this] show ?case by simp
qed

lemma buyLoop_short:
  "totalPurchased st + sum_list (sales answers) < quantity \<Longrightarrow>
     buyLoop name quantity answers st = None"
proof (induction answers arbitrary: st)
  case Nil
  then show ?case by (simp add: sales_def)
next
  case (Cons a answers)
  have "totalPurchased (iteration name quantity a st) + sum_list (sales answers) < quantity"
    using Cons.prems by (simp add: iteration_total sales_def)
  from Cons.IH [OF this] have "buyLoop name quantity answers (iteration name quantity a st) = None" .
  moreover have "totalPurchased st < quantity"
    using Cons.prems sales_nonneg [of "a # answers"] by simp
  ultimately show ?case by simp
qed

lemma buyFromMarket_returns:
  assumes "buyFromMarket c name quantity answers = Some (st', rest)"
  shows "quantity \<le> totalPurchased st'"
    and "pantry_stock (client st') = pantry_stock c"
    and "\<exists>used new. answers = used @ rest \<and>
           market_purchases (client st') = market_purchases c @ new \<and>
           map quantity_sold new = sales used \<and>
           totalPurchased st' = sum_list (sales used) \<and>
           (\<forall>r \<in> set new. recorded name r)"
  using buyLoop_returns [OF assms [unfolded buyFromMarket_def]] by simp_all

text \<open>
  Asked for one unit of rice, the market sells five in one answer: the loop returns
  five, not the quantity it was asked to obtain.
\<close>

theorem buyFromMarket_overbuys:
  "map_option (totalPurchased \<circ> fst)
     (buyFromMarket \<lparr>pantry_stock = Map.empty, market_purchases = []\<rparr> ''rice'' 1 [Resp 5]) = Some 5
   \<and> (5::int) \<noteq> 1"
  by (simp add: run_simps)

text \<open>
  Claim C4, amended. The purchase loop has no attempt cap: it returns exactly when the
  answers of the market supply the needed quantity, however many calls that takes, and
  what it returns is then at least the needed quantity. It is not always equal to it:
  the request names no quantity, and the loop adds whatever an answer sells.
\<close>

theorem buyFromMarket_until_supplied:
  "(buyFromMarket c name quantity answers \<noteq> None \<longleftrightarrow> quantity \<le> sum_list (sales answers)) \<and>
   (\<forall>st' rest. buyFromMarket c name quantity answers = Some (st', rest) \<longrightarrow>
      quantity \<le> totalPurchased st')"
proof (intro conjI allI impI)
  show "buyFromMarket c name quantity answers \<noteq> None \<longleftrightarrow> quantity \<le> sum_list (sales answers)"
    using buyLoop_supplied [of quantity _ answers name] buyLoop_short [of _ answers quantity name]
    unfolding buyFromMarket_def
    by (metis add.left_neutral not_le purchase_loop.select_convs(1))
next
  fix st' rest
  assume "buyFromMarket c name quantity answers = Some (st', rest)"
  then show "quantity \<le> totalPurchased st'"
    by (rule buyFromMarket_returns)
qed

theorem buyFromMarket_until_supplied_witness:
  "buyFromMarket \<lparr>pantry_stock = Map.empty, market_purchases = []\<rparr> ''rice'' 2
       [Resp 0, Threw, Resp 1, Resp 3, Resp 1] \<noteq> None \<and>
   (\<exists>st'. buyFromMarket \<lparr>pantry_stock = Map.empty, market_purchases = []\<rparr> ''rice'' 2
       [Resp 0, Threw, Resp 1, Resp 3, Resp 1] = Some (st', [Resp 1]) \<and> 2 \<le> totalPurchased st') \<and>
   buyFromMarket \<lparr>pantry_stock = Map.empty, market_purchases = []\<rparr> ''rice'' 2
       [Resp 0, Threw, Resp 1] = None"
proof -
  let ?c = "\<lparr>pantry_stock = Map.empty, market_purchases = []\<rparr>"
  let ?as = "[Resp 0, Threw, Resp 1, Resp 3, Resp 1]"
  note main = buyFromMarket_until_supplied [of ?c "''rice''" 2 ?as]
  have some: "buyFromMarket ?c ''rice'' 2 ?as \<noteq> None"
    using main by (simp add: sales_def)
  then obtain st' rest where ev: "buyFromMarket ?c ''rice'' 2 ?as = Some (st', rest)"
    by (cases "buyFromMarket ?c ''rice'' 2 ?as") auto
  have rest: "rest = [Resp 1]"
    using ev by (simp add: run_simps)
  have "2 \<le> totalPurchased st'"
    using main ev by blast
  moreover have "buyFromMarket ?c ''rice'' 2 [Resp 0, Threw, Resp 1] = None"
  proof -
    have "\<not> (2::int) \<le> sum_list (sales [Resp 0, Threw, Resp 1])"
      by (simp add: sales_def)
    with buyFromMarket_until_supplied [of ?c "''rice''" 2 "[Resp 0, Threw, Resp 1]"]
    show ?thesis by blast
  qed
  ultimately show ?thesis using some ev rest by simp
qed

text \<open>
  Claim C7. For every run of the purchase loop that returns, the rows it inserted
  come after the rows that were there, and their \<open>quantity_sold\<close> add up to the
  quantity the loop returns.
\<close>

theorem purchases_sum_to_total:
  assumes "buyFromMarket c name quantity answers = Some (st', rest)"
  shows "take (length (market_purchases c)) (market_purchases (client st')) = market_purchases c \<and>
         sum_list (map quantity_sold (drop (length (market_purchases c)) (market_purchases (client st'))))
           = totalPurchased st'"
proof -
  from buyFromMarket_returns(3) [OF assms] obtain used new where
    "market_purchases (client st') = market_purchases c @ new"
    "map quantity_sold new = sales used" "totalPurchased st' = sum_list (sales used)"
    by blast
  then show ?thesis by simp
qed

theorem purchases_sum_to_total_witness:
  "\<exists>st'. buyFromMarket \<lparr>pantry_stock = Map.empty, market_purchases = [rice_row 9 9]\<rparr> ''rice'' 3
       [Resp 1, Resp 0, Resp 4] = Some (st', []) \<and>
     market_purchases (client st') = [rice_row 9 9, rice_row 3 1, rice_row 2 4] \<and>
     sum_list (map quantity_sold (drop 1 (market_purchases (client st')))) = 5 \<and>
     totalPurchased st' = 5"
proof -
  let ?c = "\<lparr>pantry_stock = Map.empty, market_purchases = [rice_row 9 9]\<rparr>"
  let ?as = "[Resp 1, Resp 0, Resp 4]"
  have "buyFromMarket ?c ''rice'' 3 ?as \<noteq> None"
    by (simp add: run_simps)
  then obtain st' rest where ev: "buyFromMarket ?c ''rice'' 3 ?as = Some (st', rest)"
    by (cases "buyFromMarket ?c ''rice'' 3 ?as") auto
  have rest: "rest = []" and recs: "market_purchases (client st') = [rice_row 9 9, rice_row 3 1, rice_row 2 4]"
    and tot: "totalPurchased st' = 5"
    using ev by (auto simp add: run_simps rice_row_def getIngredientPrice_def prices_def
        toLowerCase_def lowerChar_def)
  from purchases_sum_to_total [OF ev] have
    "sum_list (map quantity_sold (drop 1 (market_purchases (client st')))) = totalPurchased st'"
    by simp
  with ev rest recs tot show ?thesis by simp
qed

text \<open>
  After an empty answer to the first call the delay has been doubled to 2000, but
  the loop has slept 1000: it sleeps the delay it had, and doubles it afterwards.
\<close>

theorem backoff_sleep_counterexample:
  "slept (iteration ''rice'' 1 (Resp 0)
      \<lparr>totalPurchased = 0, attempts = 0, backoffDelay = 1000,
       client = \<lparr>pantry_stock = Map.empty, market_purchases = []\<rparr>, slept = []\<rparr>) = [1000] \<and>
   backoffDelay (iteration ''rice'' 1 (Resp 0)
      \<lparr>totalPurchased = 0, attempts = 0, backoffDelay = 1000,
       client = \<lparr>pantry_stock = Map.empty, market_purchases = []\<rparr>, slept = []\<rparr>) = 2000"
  by (simp add: run_simps)

text \<open>
  Claim C8, amended. While the total is short, a failed or empty call is followed by
  a sleep of the current delay, and only then is the delay doubled, up to 60000, for
  the wait after the next call. A purchase sets the delay to 1000; if the total is
  still short the loop then sleeps these 1000 and leaves the delay at 2000.
\<close>

theorem backoff_sleep_then_double:
  assumes "totalPurchased st < quantity"
  shows "(sold answer = [] \<longrightarrow>
            iteration name quantity answer st =
              st\<lparr>attempts := attempts st + 1, slept := slept st @ [backoffDelay st],
                 backoffDelay := min (backoffDelay st * 2) 60000\<rparr>) \<and>
         (\<forall>q. answer = Resp q \<and> 0 < q \<longrightarrow>
            backoffDelay (tryPurchase name quantity answer st) = 1000 \<and>
            slept (iteration name quantity answer st) =
              (if totalPurchased st + q < quantity then slept st @ [1000] else slept st) \<and>
            backoffDelay (iteration name quantity answer st) =
              (if totalPurchased st + q < quantity then 2000 else 1000))"
proof (rule conjI)
  show "sold answer = [] \<longrightarrow>
      iteration name quantity answer st =
        st\<lparr>attempts := attempts st + 1, slept := slept st @ [backoffDelay st],
           backoffDelay := min (backoffDelay st * 2) 60000\<rparr>"
  proof (rule impI)
    assume "sold answer = []"
    then have "tryPurchase name quantity answer st = st"
      by (rule tryPurchase_unsold)
    with assms show "iteration name quantity answer st =
        st\<lparr>attempts := attempts st + 1, slept := slept st @ [backoffDelay st],
           backoffDelay := min (backoffDelay st * 2) 60000\<rparr>"
      by (simp add: iteration_def waitBeforeNext_def Let_def)
  qed
next
  show "\<forall>q. answer = Resp q \<and> 0 < q \<longrightarrow>
      backoffDelay (tryPurchase name quantity answer st) = 1000 \<and>
      slept (iteration name quantity answer st) =
        (if totalPurchased st + q < quantity then slept st @ [1000] else slept st) \<and>
      backoffDelay (iteration name quantity answer st) =
        (if totalPurchased st + q < quantity then 2000 else 1000)"
    by (simp add: iteration_def waitBeforeNext_def tryPurchase_def Let_def)
qed

theorem backoff_sleep_then_double_witness:
  "map_option (\<lambda>(st, rest). (slept st, backoffDelay st))
     (buyFromMarket \<lparr>pantry_stock = Map.empty, market_purchases = []\<rparr> ''rice'' 3
        [Resp 0, Threw, Resp 0, Resp 1, Threw, Resp 2]) =
     Some ([1000, 2000, 4000, 1000, 2000], 1000) \<and>
   iteration ''rice'' 3 Threw
      \<lparr>totalPurchased = 0, attempts = 6, backoffDelay = 32000,
       client = \<lparr>pantry_stock = Map.empty, market_purchases = []\<rparr>, slept = []\<rparr> =
      \<lparr>totalPurchased = 0, attempts = 7, backoffDelay = 60000,
       client = \<lparr>pantry_stock = Map.empty, market_purchases = []\<rparr>, slept = [32000]\<rparr>"
proof -
  let ?st = "\<lparr>totalPurchased = 0, attempts = 6, backoffDelay = 32000,
       client = \<lparr>pantry_stock = Map.empty, market_purchases = []\<rparr>, slept = []\<rparr>"
  have "totalPurchased ?st < 3" by simp
  from backoff_sleep_then_double [OF this, of Threw "''rice''"]
  have "iteration ''rice'' 3 Threw ?st =
      ?st\<lparr>attempts := attempts ?st + 1, slept := slept ?st @ [backoffDelay ?st],
          backoffDelay := min (backoffDelay ?st * 2) 60000\<rparr>"
    by simp
  then show ?thesis by (simp add: run_simps)
qed





section \<open>The Reservation Coordinator: properties\<close>

lemma quantityOf_row [simp]:
  "pantry_stock c name = Some q \<Longrightarrow> quantityOf c name = q"
  "pantry_stock c name = None \<Longrightarrow> quantityOf c name = 0"
  by (simp_all add: quantityOf_def)

lemma quantityOf_nonneg: "stock_nonneg c \<Longrightarrow> 0 \<le> quantityOf c name"
  by (auto simp: stock_nonneg_def quantityOf_def split: option.splits)

lemma checkIngredient_cases:
  assumes "checkIngredient fails name r cp = Some (Inr cp')"
  obtains
    (enough) "\<not> quantityOf (txn cp) name < r"
      "cp' = recordIngredient name (quantityOf (txn cp) name) r cp"
  | (bought) bought rest where "quantityOf (txn cp) name < r"
      "buyFromMarket (txn cp) name (r - quantityOf (txn cp) name) (answers_left cp) = Some (bought, rest)"
      "cp' = recordIngredient name (quantityOf (txn cp) name + totalPurchased bought) r
         (cp\<lparr>txn := (client bought)
                 \<lparr>pantry_stock := (pantry_stock (client bought))
                    (name \<mapsto> quantityOf (txn cp) name + totalPurchased bought)\<rparr>,
             answers_left := rest\<rparr>)"
  using assms unfolding checkIngredient_def quantityOf_def Let_def
  by (auto split: if_splits option.splits prod.splits)

text \<open>One pass of the first loop, seen from outside.\<close>

lemma checkIngredient_step:
  assumes "checkIngredient fails name r cp = Some (Inr cp')"
  shows "ingredientStocks cp' =
           AList.update name \<lparr>current = quantityOf (txn cp') name, required = r\<rparr> (ingredientStocks cp)"
    and "r \<le> quantityOf (txn cp') name"
    and "allIngredientsObtainable cp' = allIngredientsObtainable cp"
    and "n \<noteq> name \<Longrightarrow> pantry_stock (txn cp') n = pantry_stock (txn cp) n"
    and "quantityOf (txn cp) name \<le> quantityOf (txn cp') name"
    and "pantry_stock (txn cp') name = pantry_stock (txn cp) name \<or>
         pantry_stock (txn cp') name = Some (quantityOf (txn cp') name)"
    and "\<exists>new. market_purchases (txn cp') = market_purchases (txn cp) @ new"
proof -
  from assms show "ingredientStocks cp' =
      AList.update name \<lparr>current = quantityOf (txn cp') name, required = r\<rparr> (ingredientStocks cp)"
    by (cases rule: checkIngredient_cases) (simp_all add: recordIngredient_def)
  from assms show "r \<le> quantityOf (txn cp') name"
  proof (cases rule: checkIngredient_cases)
    case enough
    then show ?thesis by (simp add: recordIngredient_def)
  next
    case (bought b rest)
    from buyFromMarket_returns(1) [OF bought(2)] bought(3) show ?thesis
      by (simp add: recordIngredient_def)
  qed
  from assms show "allIngredientsObtainable cp' = allIngredientsObtainable cp"
  proof (cases rule: checkIngredient_cases)
    case enough
    then show ?thesis by (simp add: recordIngredient_def)
  next
    case (bought b rest)
    from buyFromMarket_returns(1) [OF bought(2)] bought(3) show ?thesis
      by (simp add: recordIngredient_def)
  qed
  from assms show "n \<noteq> name \<Longrightarrow> pantry_stock (txn cp') n = pantry_stock (txn cp) n"
  proof (cases rule: checkIngredient_cases)
    case enough
    then show ?thesis by (simp add: recordIngredient_def)
  next
    case (bought b rest)
    assume "n \<noteq> name"
    with buyFromMarket_returns(2) [OF bought(2)] bought(3) show ?thesis
      by (simp add: recordIngredient_def)
  qed
  from assms show "quantityOf (txn cp) name \<le> quantityOf (txn cp') name"
  proof (cases rule: checkIngredient_cases)
    case enough
    then show ?thesis by (simp add: recordIngredient_def)
  next
    case (bought b rest)
    from buyFromMarket_returns(1) [OF bought(2)] bought(1,3) show ?thesis
      by (simp add: recordIngredient_def)
  qed
  from assms show "pantry_stock (txn cp') name = pantry_stock (txn cp) name \<or>
         pantry_stock (txn cp') name = Some (quantityOf (txn cp') name)"
    by (cases rule: checkIngredient_cases) (simp_all add: recordIngredient_def)
  from assms show "\<exists>new. market_purchases (txn cp') = market_purchases (txn cp) @ new"
  proof (cases rule: checkIngredient_cases)
    case enough
    then show ?thesis by (simp add: recordIngredient_def)
  next
    case (bought b rest)
    from buyFromMarket_returns(3) [OF bought(2)] bought(3) show ?thesis
      by (auto simp: recordIngredient_def)
  qed
qed

lemma checkIngredient_quantityOf_other:
  "checkIngredient fails name r cp = Some (Inr cp') \<Longrightarrow> n \<noteq> name \<Longrightarrow>
     quantityOf (txn cp') n = quantityOf (txn cp) n"
  by (simp add: quantityOf_def checkIngredient_step(4))

lemma checkIngredient_consistent:
  assumes "consistent cp" and "checkIngredient fails name r cp = Some (Inr cp')"
  shows "consistent cp'"
proof -
  note step = checkIngredient_step [OF assms(2)]
  have "distinct (map fst (ingredientStocks cp'))"
    using assms(1) by (simp add: step(1) consistent_def distinct_update)
  moreover have "allIngredientsObtainable cp'"
    using assms(1) by (simp add: step(3) consistent_def)
  moreover have "required stockInfo \<le> current stockInfo \<and> current stockInfo = quantityOf (txn cp') n"
    if "map_of (ingredientStocks cp') n = Some stockInfo" for n stockInfo
  proof (cases "n = name")
    case True
    with that step(2) show ?thesis by (auto simp: step(1) update_conv')
  next
    case False
    with that have "map_of (ingredientStocks cp) n = Some stockInfo"
      by (simp add: step(1) update_conv')
    with assms(1) have "required stockInfo \<le> current stockInfo \<and> current stockInfo = quantityOf (txn cp) n"
      unfolding consistent_def by blast
    with False show ?thesis
      by (simp add: checkIngredient_quantityOf_other [OF assms(2)])
  qed
  ultimately show ?thesis unfolding consistent_def by blast
qed

lemma checkIngredient_nonneg:
  assumes "stock_nonneg (txn cp)" and "checkIngredient fails name r cp = Some (Inr cp')"
  shows "stock_nonneg (txn cp')"
  unfolding stock_nonneg_def
proof (intro allI impI)
  fix n q
  assume row: "pantry_stock (txn cp') n = Some q"
  note step = checkIngredient_step [OF assms(2)]
  show "0 \<le> q"
  proof (cases "n = name")
    case False
    with row step(4) assms(1) show ?thesis by (simp add: stock_nonneg_def)
  next
    case True
    with row have "q = quantityOf (txn cp') name" by simp
    with step(5) quantityOf_nonneg [OF assms(1), of name] show ?thesis by simp
  qed
qed

text \<open>The whole first loop.\<close>

lemma checkIngredients_consistent:
  "consistent cp \<Longrightarrow> checkIngredients fails entries cp = Some (Inr cp') \<Longrightarrow> consistent cp'"
proof (induction entries arbitrary: cp)
  case Nil
  then show ?case by simp
next
  case (Cons entry entries)
  obtain name r where entry: "entry = (name, r)" by (cases entry)
  from Cons.prems(2) obtain cp1 where
    one: "checkIngredient fails name r cp = Some (Inr cp1)" and
    more: "checkIngredients fails entries cp1 = Some (Inr cp')"
    by (auto simp: entry split: option.splits sum.splits)
  from Cons.IH [OF checkIngredient_consistent [OF Cons.prems(1) one] more] show ?case .
qed

lemma checkIngredients_nonneg:
  "stock_nonneg (txn cp) \<Longrightarrow> checkIngredients fails entries cp = Some (Inr cp') \<Longrightarrow>
     stock_nonneg (txn cp')"
proof (induction entries arbitrary: cp)
  case Nil
  then show ?case by simp
next
  case (Cons entry entries)
  obtain name r where entry: "entry = (name, r)" by (cases entry)
  from Cons.prems(2) obtain cp1 where
    one: "checkIngredient fails name r cp = Some (Inr cp1)" and
    more: "checkIngredients fails entries cp1 = Some (Inr cp')"
    by (auto simp: entry split: option.splits sum.splits)
  from Cons.IH [OF checkIngredient_nonneg [OF Cons.prems(1) one] more] show ?case .
qed

lemma checkIngredients_frame:
  "checkIngredients fails entries cp = Some (Inr cp') \<Longrightarrow>
     (\<forall>n. n \<notin> fst ` set entries \<longrightarrow>
        pantry_stock (txn cp') n = pantry_stock (txn cp) n \<and>
        map_of (ingredientStocks cp') n = map_of (ingredientStocks cp) n) \<and>
     fst ` set (ingredientStocks cp') = fst ` set (ingredientStocks cp) \<union> fst ` set entries \<and>
     (\<exists>new. market_purchases (txn cp') = market_purchases (txn cp) @ new)"
proof (induction entries arbitrary: cp)
  case Nil
  then show ?case by simp
next
  case (Cons entry entries)
  obtain name r where entry: "entry = (name, r)" by (cases entry)
  from Cons.prems obtain cp1 where
    one: "checkIngredient fails name r cp = Some (Inr cp1)" and
    more: "checkIngredients fails entries cp1 = Some (Inr cp')"
    by (auto simp: entry split: option.splits sum.splits)
  note step = checkIngredient_step [OF one]
  note ih = Cons.IH [OF more]
  have "pantry_stock (txn cp') n = pantry_stock (txn cp) n \<and>
        map_of (ingredientStocks cp') n = map_of (ingredientStocks cp) n"
    if "n \<notin> fst ` set (entry # entries)" for n
  proof -
    from that have "n \<noteq> name" "n \<notin> fst ` set entries" by (auto simp: entry)
    with ih step(4) [of n] show ?thesis by (simp add: step(1) update_conv')
  qed
  moreover have "fst ` set (ingredientStocks cp') =
      fst ` set (ingredientStocks cp) \<union> fst ` set (entry # entries)"
    using ih by (auto simp: step(1) dom_update entry)
  moreover have "\<exists>new. market_purchases (txn cp') = market_purchases (txn cp) @ new"
    using ih step(7) by auto
  ultimately show ?case by blast
qed


text \<open>The second loop.\<close>

lemma decrement_other [simp]:
  "n \<noteq> name \<Longrightarrow> pantry_stock (decrement name amount c) n = pantry_stock c n"
  by (simp add: decrement_def split: option.splits)

lemma decrement_same [simp]:
  "pantry_stock (decrement name amount c) name = map_option (\<lambda>q. q - amount) (pantry_stock c name)"
  by (simp add: decrement_def split: option.splits)

lemma decrement_purchases [simp]:
  "market_purchases (decrement name amount c) = market_purchases c"
  by (simp add: decrement_def split: option.splits)

lemma consumeIngredients_result:
  "distinct (map fst entries) \<Longrightarrow> consumeIngredients fails entries c = Inr c' \<Longrightarrow>
     market_purchases c' = market_purchases c \<and>
     (\<forall>n. pantry_stock c' n =
        (case map_of entries n of
           None \<Rightarrow> pantry_stock c n
         | Some stockInfo \<Rightarrow> map_option (\<lambda>q. q - required stockInfo) (pantry_stock c n)))"
proof (induction entries arbitrary: c)
  case Nil
  then show ?case by simp
next
  case (Cons entry entries)
  obtain name stockInfo where entry: "entry = (name, stockInfo)" by (cases entry)
  from Cons.prems(2) have
    more: "consumeIngredients fails entries (decrement name (required stockInfo) c) = Inr c'"
    by (simp add: entry split: if_splits)
  from Cons.prems(1) have fresh: "name \<notin> fst ` set entries" and dist: "distinct (map fst entries)"
    by (simp_all add: entry)
  from fresh have none: "map_of entries name = None"
    by (simp add: map_of_eq_None_iff)
  from Cons.IH [OF dist more] none show ?case
    by (auto simp: entry split: option.splits)
qed

lemmas handle_simps = handleIngredientRequest_def beginTransaction_def checkIngredient_def
  recordIngredient_def decrement_def notifyIngredientsReady_def caught_def
  scheduleIngredientRetry_def updateOrderStatus_def retryDelay_def RETRY_DELAYS_def
  MAX_RETRY_ATTEMPTS_def

lemmas sample_simps = order1_def pantry1_def market_open_def lock_fails_def lock_raised_def
  market_dry_def

lemma checkIngredient_error:
  "checkIngredient fails name r cp = Some (Inl x) \<Longrightarrow> \<exists>st. x = DatabaseError st"
  unfolding checkIngredient_def Let_def
  by (auto split: if_splits option.splits prod.splits)

lemma checkIngredients_error:
  "checkIngredients fails entries cp = Some (Inl x) \<Longrightarrow> \<exists>st. x = DatabaseError st"
proof (induction entries arbitrary: cp)
  case Nil
  then show ?case by simp
next
  case (Cons entry entries)
  obtain name r where entry: "entry = (name, r)" by (cases entry)
  from Cons.prems Cons.IH show ?case
    by (auto simp: entry split: option.splits sum.splits dest: checkIngredient_error)
qed

lemma consumeIngredients_error:
  "consumeIngredients fails entries c = Inl x \<Longrightarrow> \<exists>st. x = DatabaseError st"
  by (induction entries arbitrary: c) (auto split: if_splits)

text \<open>The paths through one attempt.\<close>

lemma handle_cases:
  assumes "handleIngredientRequest e m s = Some (out, s')"
  obtains
    (failed) st where "out = Errored (DatabaseError st)" "s' = scheduleIngredientRetry m s"
  | (insufficient) cp where
      "checkIngredients (raises e) (recipeSnapshot m) (beginTransaction e s) = Some (Inr cp)"
      "\<not> allIngredientsObtainable cp" "out = Insufficient"
      "s' = scheduleIngredientRetry m (updateOrderStatus (orderId m) waiting_ingredients s)"
  | (unnotified) cp c where
      "checkIngredients (raises e) (recipeSnapshot m) (beginTransaction e s) = Some (Inr cp)"
      "allIngredientsObtainable cp"
      "consumeIngredients (raises e) (ingredientStocks cp) (txn cp) = Inr c"
      "out = Errored ChannelNotAvailable"
      "s' = scheduleIngredientRetry m (s\<lparr>committed := c\<rparr>)"
  | (consumed) cp c where
      "checkIngredients (raises e) (recipeSnapshot m) (beginTransaction e s) = Some (Inr cp)"
      "allIngredientsObtainable cp"
      "consumeIngredients (raises e) (ingredientStocks cp) (txn cp) = Inr c"
      "out = Consumed"
      "s' = s\<lparr>committed := c,
              published := published s @
                [(requestId m, orderId m,
                  map (\<lambda>(name, stockInfo). (name, required stockInfo)) (ingredientStocks cp))],
              retryAttempts := (retryAttempts s)(orderId m := None)\<rparr>"
proof (cases "raises e Begin")
  case True
  with assms failed show ?thesis
    by (auto simp add: handleIngredientRequest_def caught_def)
next
  case noBegin: False
  show ?thesis
  proof (cases "checkIngredients (raises e) (recipeSnapshot m) (beginTransaction e s)")
    case None
    with assms noBegin show ?thesis by (auto simp add: handleIngredientRequest_def)
  next
    case (Some res)
    show ?thesis
    proof (cases res)
      case (Inl x)
      with Some checkIngredients_error obtain st where "x = DatabaseError st" by blast
      with assms noBegin Some Inl failed show ?thesis
        by (auto simp add: handleIngredientRequest_def caught_def)
    next
      case (Inr cp)
      show ?thesis
      proof (cases "allIngredientsObtainable cp")
        case False
        with assms noBegin Some Inr insufficient show ?thesis
          by (auto simp add: handleIngredientRequest_def)
      next
        case flag: True
        show ?thesis
        proof (cases "consumeIngredients (raises e) (ingredientStocks cp) (txn cp)")
          case (Inl x)
          with consumeIngredients_error obtain st where "x = DatabaseError st" by blast
          with assms noBegin Some Inr flag Inl failed show ?thesis
            by (auto simp add: handleIngredientRequest_def caught_def)
        next
          case consumedRows: (Inr c)
          show ?thesis
          proof (cases "raises e Commit")
            case True
            with assms noBegin Some Inr flag consumedRows failed show ?thesis
              by (auto simp add: handleIngredientRequest_def caught_def)
          next
            case noCommit: False
            show ?thesis
            proof (cases "rabbitChannel s")
              case False
              with assms noBegin Some Inr flag consumedRows noCommit
                unnotified [of cp c] show ?thesis
                by (auto simp add: handleIngredientRequest_def caught_def notifyIngredientsReady_def Let_def)
            next
              case True
              with assms noBegin Some Inr flag consumedRows noCommit
                consumed [of cp c] show ?thesis
                by (auto simp add: handleIngredientRequest_def notifyIngredientsReady_def Let_def)
            qed
          qed
        qed
      qed
    qed
  qed
qed

lemma scheduleIngredientRetry_committed [simp]:
  "committed (scheduleIngredientRetry m s) = committed s"
  by (simp add: scheduleIngredientRetry_def updateOrderStatus_def Let_def split: option.splits)

lemma updateOrderStatus_committed [simp]:
  "committed (updateOrderStatus oid status s) = committed s"
  by (simp add: updateOrderStatus_def split: option.splits)

lemma beginTransaction_consistent: "consistent (beginTransaction e s)"
  by (simp add: consistent_def beginTransaction_def)

lemma beginTransaction_fields [simp]:
  "txn (beginTransaction e s) = committed s"
  "ingredientStocks (beginTransaction e s) = []"
  by (simp_all add: beginTransaction_def)

lemma checked_consistent:
  "checkIngredients (raises e) (recipeSnapshot m) (beginTransaction e s) = Some (Inr cp) \<Longrightarrow>
     consistent cp"
  by (rule checkIngredients_consistent [OF beginTransaction_consistent])

lemma consistent_entry:
  assumes "consistent cp" and "map_of (ingredientStocks cp) n = Some stockInfo"
  shows "required stockInfo \<le> quantityOf (txn cp) n"
proof -
  from assms(1) have entry: "\<And>name info. map_of (ingredientStocks cp) name = Some info \<Longrightarrow>
      required info \<le> current info \<and> current info = quantityOf (txn cp) name"
    unfolding consistent_def by blast
  from entry [OF assms(2)] show ?thesis by simp
qed

text \<open>What the committed rows are after an attempt that committed.\<close>

lemma committed_rows:
  assumes check: "checkIngredients (raises e) (recipeSnapshot m) (beginTransaction e s) = Some (Inr cp)"
    and consume: "consumeIngredients (raises e) (ingredientStocks cp) (txn cp) = Inr c"
  shows "market_purchases c = market_purchases (txn cp)"
    and "pantry_stock c n =
           (case map_of (ingredientStocks cp) n of
              None \<Rightarrow> pantry_stock (txn cp) n
            | Some stockInfo \<Rightarrow> map_option (\<lambda>q. q - required stockInfo) (pantry_stock (txn cp) n))"
proof -
  from checked_consistent [OF check] have "distinct (map fst (ingredientStocks cp))"
    by (simp add: consistent_def)
  from consumeIngredients_result [OF this consume]
  show "market_purchases c = market_purchases (txn cp)"
    and "pantry_stock c n =
           (case map_of (ingredientStocks cp) n of
              None \<Rightarrow> pantry_stock (txn cp) n
            | Some stockInfo \<Rightarrow> map_option (\<lambda>q. q - required stockInfo) (pantry_stock (txn cp) n))"
    by simp_all
qed

lemma committed_nonneg:
  assumes check: "checkIngredients (raises e) (recipeSnapshot m) (beginTransaction e s) = Some (Inr cp)"
    and consume: "consumeIngredients (raises e) (ingredientStocks cp) (txn cp) = Inr c"
    and nonneg: "stock_nonneg (committed s)"
  shows "stock_nonneg c"
  unfolding stock_nonneg_def
proof (intro allI impI)
  fix n q
  assume row: "pantry_stock c n = Some q"
  have inTxn: "stock_nonneg (txn cp)"
    using checkIngredients_nonneg [OF _ check] nonneg by simp
  note cons = checked_consistent [OF check]
  show "0 \<le> q"
  proof (cases "map_of (ingredientStocks cp) n")
    case None
    with row committed_rows(2) [OF check consume, of n] inTxn show ?thesis
      by (simp add: stock_nonneg_def)
  next
    case (Some stockInfo)
    from cons Some have le: "required stockInfo \<le> quantityOf (txn cp) n"
      by (rule consistent_entry)
    from Some row committed_rows(2) [OF check consume, of n]
    obtain q0 where "pantry_stock (txn cp) n = Some q0" "q = q0 - required stockInfo"
      by auto
    with le show ?thesis by simp
  qed
qed

text \<open>
  Claim C10. Whenever the first phase runs to its end, that is, every call of
  \<^verbatim>\<open>buyFromMarket\<close> returned and no statement raised, the flag
  \<^verbatim>\<open>allIngredientsObtainable\<close> is still set and every ingredient of the order is
  recorded with the quantity now in its row, which covers the required quantity. So no
  attempt ends in the else branch of the decision: an attempt that does not consume
  ends in the catch block.
\<close>

theorem insufficient_branch_unreachable:
  "(\<forall>cp. checkIngredients (raises e) (recipeSnapshot m) (beginTransaction e s) = Some (Inr cp) \<longrightarrow>
       allIngredientsObtainable cp \<and>
       fst ` set (ingredientStocks cp) = fst ` set (recipeSnapshot m) \<and>
       (\<forall>(name, stockInfo) \<in> set (ingredientStocks cp).
          current stockInfo = quantityOf (txn cp) name \<and> required stockInfo \<le> current stockInfo)) \<and>
   (\<forall>out s'. handleIngredientRequest e m s = Some (out, s') \<longrightarrow>
       out \<noteq> Insufficient \<and> (out = Consumed \<or> (\<exists>x. out = Errored x)))"
proof (intro conjI allI impI)
  fix cp
  assume check: "checkIngredients (raises e) (recipeSnapshot m) (beginTransaction e s) = Some (Inr cp)"
  note cons = checked_consistent [OF check]
  from cons show "allIngredientsObtainable cp"
    by (simp add: consistent_def)
  from checkIngredients_frame [OF check]
  show "fst ` set (ingredientStocks cp) = fst ` set (recipeSnapshot m)"
    by simp
  show "\<forall>(name, stockInfo) \<in> set (ingredientStocks cp).
          current stockInfo = quantityOf (txn cp) name \<and> required stockInfo \<le> current stockInfo"
  proof (clarify, rule conjI)
    fix name stockInfo
    assume "(name, stockInfo) \<in> set (ingredientStocks cp)"
    with cons have found: "map_of (ingredientStocks cp) name = Some stockInfo"
      by (simp add: consistent_def)
    from cons have entry: "\<And>n info. map_of (ingredientStocks cp) n = Some info \<Longrightarrow>
        required info \<le> current info \<and> current info = quantityOf (txn cp) n"
      unfolding consistent_def by blast
    from entry [OF found] show "current stockInfo = quantityOf (txn cp) name"
      and "required stockInfo \<le> current stockInfo" by simp_all
  qed
next
  fix out s'
  assume run: "handleIngredientRequest e m s = Some (out, s')"
  then show "out \<noteq> Insufficient"
  proof (cases rule: handle_cases)
    case (insufficient cp)
    with checked_consistent [OF insufficient(1)] show ?thesis
      by (simp add: consistent_def)
  qed simp_all
  then show "out = Consumed \<or> (\<exists>x. out = Errored x)"
    by (cases out) simp_all
qed

theorem insufficient_branch_unreachable_witness:
  "(\<exists>cp. checkIngredients (raises market_open) (recipeSnapshot order1)
           (beginTransaction market_open pantry1) = Some (Inr cp) \<and>
         allIngredientsObtainable cp \<and>
         map (\<lambda>(name, stockInfo). (name, current stockInfo, required stockInfo)) (ingredientStocks cp) =
           [(''tomato'', 2, 2), (''cheese'', 1, 1)]) \<and>
   (\<exists>s'. handleIngredientRequest market_open order1 pantry1 = Some (Consumed, s')) \<and>
   (\<exists>s'. handleIngredientRequest lock_fails order1 pantry1 =
           Some (Errored (DatabaseError (SelectForUpdate ''cheese'')), s'))"
proof -
  let ?check = "checkIngredients (raises market_open) (recipeSnapshot order1)
      (beginTransaction market_open pantry1)"
  have ev: "map_option (map_sum id
      (\<lambda>cp. map (\<lambda>(name, stockInfo). (name, current stockInfo, required stockInfo)) (ingredientStocks cp)))
      ?check = Some (Inr [(''tomato'', 2, 2), (''cheese'', 1, 1)])"
    by (simp add: sample_simps handle_simps run_simps)
  then obtain cp where check: "?check = Some (Inr cp)"
    and rows: "map (\<lambda>(name, stockInfo). (name, current stockInfo, required stockInfo)) (ingredientStocks cp) =
           [(''tomato'', 2, 2), (''cheese'', 1, 1)]"
    by (cases ?check; cases "the ?check") auto
  from insufficient_branch_unreachable [of market_open order1 pantry1] check
  have "allIngredientsObtainable cp" by blast
  moreover have "map_option fst (handleIngredientRequest market_open order1 pantry1) = Some Consumed"
    by (simp add: sample_simps handle_simps run_simps)
  moreover have "map_option fst (handleIngredientRequest lock_fails order1 pantry1) =
      Some (Errored (DatabaseError (SelectForUpdate ''cheese'')))"
    by (simp add: sample_simps handle_simps run_simps)
  ultimately show ?thesis using check rows by auto
qed



text \<open>
  Claim C3. If no committed row is negative before an attempt, none is after it.
  At the end of the first phase no row of the transaction is negative and every row
  recorded for the order holds at least the required quantity; only then does the
  second phase subtract the required quantities.
\<close>

theorem stock_never_negative:
  assumes "stock_nonneg (committed s)"
    and "handleIngredientRequest e m s = Some (out, s')"
  shows "stock_nonneg (committed s') \<and>
         (\<forall>cp. checkIngredients (raises e) (recipeSnapshot m) (beginTransaction e s) = Some (Inr cp) \<longrightarrow>
            stock_nonneg (txn cp) \<and>
            (\<forall>(name, stockInfo) \<in> set (ingredientStocks cp).
               required stockInfo \<le> quantityOf (txn cp) name))"
proof (intro conjI allI impI)
  from assms(2) show "stock_nonneg (committed s')"
  proof (cases rule: handle_cases)
    case (failed st)
    with assms(1) show ?thesis by simp
  next
    case (insufficient cp)
    with assms(1) show ?thesis by simp
  next
    case (unnotified cp c)
    with committed_nonneg [OF unnotified(1,3) assms(1)] show ?thesis by simp
  next
    case (consumed cp c)
    with committed_nonneg [OF consumed(1,3) assms(1)] show ?thesis by simp
  qed
next
  fix cp
  assume check: "checkIngredients (raises e) (recipeSnapshot m) (beginTransaction e s) = Some (Inr cp)"
  from checkIngredients_nonneg [OF _ check] assms(1) show "stock_nonneg (txn cp)"
    by simp
  note cons = checked_consistent [OF check]
  show "\<forall>(name, stockInfo) \<in> set (ingredientStocks cp). required stockInfo \<le> quantityOf (txn cp) name"
  proof clarify
    fix name stockInfo
    assume "(name, stockInfo) \<in> set (ingredientStocks cp)"
    with cons have "map_of (ingredientStocks cp) name = Some stockInfo"
      by (simp add: consistent_def)
    from consistent_entry [OF cons this]
    show "required stockInfo \<le> quantityOf (txn cp) name" .
  qed
qed

theorem stock_never_negative_witness:
  "stock_nonneg (committed pantry1) \<and>
   (\<exists>s'. handleIngredientRequest market_open order1 pantry1 = Some (Consumed, s') \<and>
          stock_nonneg (committed s') \<and>
          pantry_stock (committed s') ''tomato'' = Some 0)"
proof -
  have nonneg: "stock_nonneg (committed pantry1)"
    by (simp add: stock_nonneg_def pantry1_def)
  have "map_option (\<lambda>(out, s'). (out, pantry_stock (committed s') ''tomato''))
          (handleIngredientRequest market_open order1 pantry1) = Some (Consumed, Some 0)"
    by (simp add: sample_simps handle_simps run_simps)
  then obtain s' where run: "handleIngredientRequest market_open order1 pantry1 = Some (Consumed, s')"
    and row: "pantry_stock (committed s') ''tomato'' = Some 0"
    by auto
  from stock_never_negative [OF nonneg run] have "stock_nonneg (committed s')"
    by simp
  with nonneg run row show ?thesis by blast
qed

text \<open>
  The pantry holds one tomato and the order needs two. The first phase buys one: in
  the transaction the row holds two and one purchase is recorded. Then the lock on the
  cheese row cannot be taken, the attempt fails, and the committed tables hold one
  tomato and no purchase: the top-up is gone with the failed attempt.
\<close>

theorem topup_lost_on_rollback:
  "map_option (map_sum id (\<lambda>cp. (pantry_stock (txn cp) ''tomato'', length (market_purchases (txn cp)))))
     (checkIngredients (raises lock_fails) [(''tomato'', 2)] (beginTransaction lock_fails pantry1)) =
     Some (Inr (Some 2, 1)) \<and>
   map_option (\<lambda>(out, s'). (out, pantry_stock (committed s') ''tomato'', market_purchases (committed s')))
     (handleIngredientRequest lock_fails order1 pantry1) =
     Some (Errored (DatabaseError (SelectForUpdate ''cheese'')), Some 1, [])"
  by (simp add: sample_simps handle_simps run_simps)

text \<open>
  Claim C5, amended. The purchases of the first phase and the stock they add are
  written in the reservation transaction and share its fate. An attempt that ends in a
  rollback leaves the committed stock and the committed purchase rows as they were
  before the attempt. An attempt that commits makes every purchase row of the attempt
  permanent, and the committed stock is the topped-up stock less what the order
  consumed.
\<close>

theorem purchases_committed_with_reservation:
  assumes "handleIngredientRequest e m s = Some (out, s')"
  shows "(rolledBack out \<longrightarrow>
            pantry_stock (committed s') = pantry_stock (committed s) \<and>
            market_purchases (committed s') = market_purchases (committed s)) \<and>
         (\<not> rolledBack out \<longrightarrow>
            (\<exists>cp. checkIngredients (raises e) (recipeSnapshot m) (beginTransaction e s) = Some (Inr cp) \<and>
               market_purchases (committed s') = market_purchases (txn cp) \<and>
               (\<forall>name. pantry_stock (committed s') name =
                  (case map_of (ingredientStocks cp) name of
                     None \<Rightarrow> pantry_stock (txn cp) name
                   | Some stockInfo \<Rightarrow>
                       map_option (\<lambda>q. q - required stockInfo) (pantry_stock (txn cp) name)))))"
  using assms
proof (cases rule: handle_cases)
  case (failed st)
  then show ?thesis by simp
next
  case (insufficient cp)
  then show ?thesis by simp
next
  case (unnotified cp c)
  with committed_rows [OF unnotified(1,3)] show ?thesis by auto
next
  case (consumed cp c)
  with committed_rows [OF consumed(1,3)] show ?thesis by auto
qed

theorem purchases_committed_with_reservation_witness:
  "(\<exists>s'. handleIngredientRequest lock_fails order1 pantry1 =
            Some (Errored (DatabaseError (SelectForUpdate ''cheese'')), s') \<and>
          pantry_stock (committed s') = pantry_stock (committed pantry1) \<and>
          market_purchases (committed s') = []) \<and>
   (\<exists>s'. handleIngredientRequest market_open order1 pantry1 = Some (Consumed, s') \<and>
          map quantity_sold (market_purchases (committed s')) = [1, 1])"
proof -
  have "map_option fst (handleIngredientRequest lock_fails order1 pantry1) =
      Some (Errored (DatabaseError (SelectForUpdate ''cheese'')))"
    by (simp add: sample_simps handle_simps run_simps)
  then obtain s' where run: "handleIngredientRequest lock_fails order1 pantry1 =
      Some (Errored (DatabaseError (SelectForUpdate ''cheese'')), s')"
    by auto
  from purchases_committed_with_reservation [OF run]
  have "pantry_stock (committed s') = pantry_stock (committed pantry1)"
    and "market_purchases (committed s') = market_purchases (committed pantry1)"
    by simp_all
  then have undone: "pantry_stock (committed s') = pantry_stock (committed pantry1) \<and>
      market_purchases (committed s') = []"
    by (simp add: pantry1_def)
  have "map_option (\<lambda>(out, s'). (out, map quantity_sold (market_purchases (committed s'))))
          (handleIngredientRequest market_open order1 pantry1) = Some (Consumed, [1, 1])"
    by (simp add: sample_simps handle_simps run_simps)
  then have "\<exists>s'. handleIngredientRequest market_open order1 pantry1 = Some (Consumed, s') \<and>
          map quantity_sold (market_purchases (committed s')) = [1, 1]"
    by auto
  with run undone show ?thesis by blast
qed

section \<open>The Retry Scheduler: properties\<close>





lemma schedule_cancel:
  assumes "retryAttempts s (orderId m) = Some k" and "5 \<le> k"
  shows "scheduleIngredientRetry m s =
           (updateOrderStatus (orderId m) cancelled s)
             \<lparr>retryAttempts := (retryAttempts s)(orderId m := None)\<rparr>"
  using assms by (simp add: scheduleIngredientRetry_def MAX_RETRY_ATTEMPTS_def)

lemma updateOrderStatus_fields [simp]:
  "retryAttempts (updateOrderStatus oid status s) = retryAttempts s"
  "timers (updateOrderStatus oid status s) = timers s"
  by (simp_all add: updateOrderStatus_def split: option.splits)












text \<open>
  A request for an order whose status is cancelled, or completed, is handled again
  and fails: a retry is scheduled for it, 30 seconds away, as for any other order.
\<close>

theorem terminal_order_retried_again:
  "map_option (\<lambda>(out, s'). (out, orders s' 1, retryAttempts s' 1, timers s'))
     (handleIngredientRequest lock_fails order1 (pantry1\<lparr>orders := [1 \<mapsto> cancelled]\<rparr>)) =
     Some (lock_raised, Some cancelled, Some 1, [(30000, order1)]) \<and>
   map_option (\<lambda>(out, s'). (out, orders s' 1, retryAttempts s' 1, timers s'))
     (handleIngredientRequest lock_fails order1 (pantry1\<lparr>orders := [1 \<mapsto> completed]\<rparr>)) =
     Some (lock_raised, Some completed, Some 1, [(30000, order1)])"
  by (simp add: sample_simps handle_simps run_simps)

lemma besides_schedule:
  assumes "besidesOrders s1 = besidesOrders s2"
  shows "besidesOrders (scheduleIngredientRetry m s1) = besidesOrders (scheduleIngredientRetry m s2)"
  using assms
  by (simp add: besidesOrders_def scheduleIngredientRetry_def updateOrderStatus_def Let_def
      split: option.splits)

lemma besides_update [simp]:
  "besidesOrders (updateOrderStatus oid status s) = besidesOrders s"
  by (simp add: besidesOrders_def updateOrderStatus_def split: option.splits)

lemma besides_handle:
  assumes same: "besidesOrders s1 = besidesOrders s2"
  shows "map_option (apsnd besidesOrders) (handleIngredientRequest e m s1) =
         map_option (apsnd besidesOrders) (handleIngredientRequest e m s2)"
proof -
  from same have fields: "committed s1 = committed s2" "rabbitChannel s1 = rabbitChannel s2"
    "published s1 = published s2" "retryAttempts s1 = retryAttempts s2"
    by (simp_all add: besidesOrders_def)
  have start: "beginTransaction e s1 = beginTransaction e s2"
    by (simp add: beginTransaction_def fields)
  have caught: "apsnd besidesOrders (caught x m s1) = apsnd besidesOrders (caught x m s2)" for x
    by (simp add: caught_def besides_schedule [OF same])
  have short: "besidesOrders (scheduleIngredientRetry m (updateOrderStatus (orderId m) waiting_ingredients s1)) =
      besidesOrders (scheduleIngredientRetry m (updateOrderStatus (orderId m) waiting_ingredients s2))"
    by (rule besides_schedule) (simp add: same)
  have commit: "besidesOrders (s1\<lparr>committed := c\<rparr>) = besidesOrders (s2\<lparr>committed := c\<rparr>)" for c
    using same by (simp add: besidesOrders_def)
  have unsent: "apsnd besidesOrders (caught x m (s1\<lparr>committed := c\<rparr>)) =
      apsnd besidesOrders (caught x m (s2\<lparr>committed := c\<rparr>))" for x c
    by (simp add: caught_def besides_schedule [OF commit])
  have sent: "besidesOrders (s1\<lparr>committed := c, published := p, retryAttempts := r\<rparr>) =
      besidesOrders (s2\<lparr>committed := c, published := p, retryAttempts := r\<rparr>)" for c p r
    using same by (simp add: besidesOrders_def)
  show ?thesis
    unfolding handleIngredientRequest_def start notifyIngredientsReady_def Let_def
    using caught short unsent sent
    by (simp add: fields split: option.splits sum.splits)
qed

text \<open>
  Claim C6, amended. The call of the scheduler that cancels an order schedules no
  further attempt and discards the counter, and so does an attempt that consumes. But
  the service never reads the status of an order: what an attempt does, to the stock,
  the purchases, the counters, the callbacks and the notifications, is the same
  whatever the status column holds, so a request handled again for a completed or
  cancelled order is retried like any other.
\<close>

theorem order_status_never_read:
  "(\<forall>k. retryAttempts s (orderId m) = Some k \<and> MAX_RETRY_ATTEMPTS \<le> k \<longrightarrow>
       timers (scheduleIngredientRetry m s) = timers s \<and>
       retryAttempts (scheduleIngredientRetry m s) (orderId m) = None) \<and>
   (\<forall>s'. handleIngredientRequest e m s = Some (Consumed, s') \<longrightarrow>
       timers s' = timers s \<and> retryAttempts s' (orderId m) = None) \<and>
   map_option (apsnd besidesOrders) (handleIngredientRequest e m (s\<lparr>orders := statuses\<rparr>)) =
     map_option (apsnd besidesOrders) (handleIngredientRequest e m s)"
proof (intro conjI allI impI)
  fix k
  assume "retryAttempts s (orderId m) = Some k \<and> MAX_RETRY_ATTEMPTS \<le> k"
  then have "retryAttempts s (orderId m) = Some k" "5 \<le> k"
    by (simp_all add: MAX_RETRY_ATTEMPTS_def)
  from schedule_cancel [OF this]
  show "timers (scheduleIngredientRetry m s) = timers s"
    and "retryAttempts (scheduleIngredientRetry m s) (orderId m) = None"
    by simp_all
next
  fix s'
  assume run: "handleIngredientRequest e m s = Some (Consumed, s')"
  then show "timers s' = timers s" by (cases rule: handle_cases) simp_all
  from run show "retryAttempts s' (orderId m) = None" by (cases rule: handle_cases) simp_all
next
  show "map_option (apsnd besidesOrders) (handleIngredientRequest e m (s\<lparr>orders := statuses\<rparr>)) =
     map_option (apsnd besidesOrders) (handleIngredientRequest e m s)"
    by (rule besides_handle) (simp add: besidesOrders_def)
qed

theorem order_status_never_read_witness:
  "scheduleIngredientRetry order1 (pantry1\<lparr>retryAttempts := [1 \<mapsto> 5], orders := [1 \<mapsto> waiting_ingredients]\<rparr>) =
     pantry1\<lparr>retryAttempts := Map.empty, orders := [1 \<mapsto> cancelled]\<rparr> \<and>
   (\<exists>s'. handleIngredientRequest market_open order1 (pantry1\<lparr>retryAttempts := [1 \<mapsto> 3]\<rparr>) =
            Some (Consumed, s') \<and> timers s' = [] \<and> retryAttempts s' 1 = None) \<and>
   map_option (apsnd besidesOrders)
     (handleIngredientRequest lock_fails order1 (pantry1\<lparr>orders := [1 \<mapsto> cancelled]\<rparr>)) =
     map_option (apsnd besidesOrders) (handleIngredientRequest lock_fails order1 pantry1)"
proof -
  let ?s = "pantry1\<lparr>retryAttempts := [1 \<mapsto> 3]\<rparr>"
  have "scheduleIngredientRetry order1
      (pantry1\<lparr>retryAttempts := [1 \<mapsto> 5], orders := [1 \<mapsto> waiting_ingredients]\<rparr>) =
     pantry1\<lparr>retryAttempts := Map.empty, orders := [1 \<mapsto> cancelled]\<rparr>"
    by (simp add: sample_simps handle_simps)
  moreover have "map_option fst (handleIngredientRequest market_open order1 ?s) = Some Consumed"
    by (simp add: sample_simps handle_simps run_simps)
  then obtain s' where run: "handleIngredientRequest market_open order1 ?s = Some (Consumed, s')"
    by auto
  note main = order_status_never_read [of ?s order1 market_open "[1 \<mapsto> cancelled]"]
  from main run have "timers s' = timers ?s \<and> retryAttempts s' (orderId order1) = None"
    by blast
  then have "timers s' = [] \<and> retryAttempts s' 1 = None"
    by (simp add: sample_simps)
  moreover note run
  moreover from order_status_never_read [of pantry1 order1 lock_fails "[1 \<mapsto> cancelled]"]
  have "map_option (apsnd besidesOrders)
     (handleIngredientRequest lock_fails order1 (pantry1\<lparr>orders := [1 \<mapsto> cancelled]\<rparr>)) =
     map_option (apsnd besidesOrders) (handleIngredientRequest lock_fails order1 pantry1)"
    by blast
  ultimately show ?thesis by blast
qed

end
